theory Spec2Isabelle
  imports Complex_Main
begin

section \<open>The vector index and metadata store of indexer/faiss\_index.py\<close>

text \<open>
  The development embeds the two classes of \<^verbatim>\<open>indexer/faiss_index.py\<close>:
  \<^verbatim>\<open>MetadataDB\<close> (a SQLite table of documents) and \<^verbatim>\<open>FaissIndex\<close> (an ANN index,
  the slot-to-document mapping, and their two persisted files). Mutation is explicit
  state passing; a raised exception is the left injection of a sum, returned together
  with the state as the exception leaves it.
\<close>

subsection \<open>Values\<close>

text \<open>
  A numpy array as the callers pass it: one-dimensional (\<^verbatim>\<open>embedding[0]\<close>) or
  two-dimensional (a list of rows). \<^verbatim>\<open>astype('float32')\<close> is the identity on the
  abstract element type.
\<close>

type_synonym vector = "real list"

datatype ndarray = Arr1 vector | Arr2 "vector list"

text \<open>
  \<^verbatim>\<open>if vector.ndim == 1: vector = np.expand_dims(vector, 0)\<close>: afterwards the array
  is a list of rows.
\<close>

fun expand_dims :: "ndarray \<Rightarrow> vector list" where
  "expand_dims (Arr1 v) = [v]"
| "expand_dims (Arr2 rows) = rows"

text \<open>
  The exceptions the module can raise. \<open>DimensionMismatch\<close> is the engine's
  \<^verbatim>\<open>assert d == self.d\<close>. \<open>Blocks\<close> is not an exception: it marks a call that waits
  at \<^verbatim>\<open>with self.lock\<close> for a lock that is held, which in a sequential run never
  returns.
\<close>

datatype error =
    RuntimeError
  | DimensionMismatch
  | IndexError
  | TypeError
  | OSError
  | JSONDecodeError
  | ReadIndexError
  | Blocks

text \<open>A key of the Python dict \<^verbatim>\<open>id_to_doc_id\<close>: an int, or (after \<^verbatim>\<open>json.load\<close>) a str.\<close>

datatype key = KInt int | KStr string

type_synonym 'v dict = "(key \<times> 'v) list"

text \<open>
  A Python dict keeps insertion order; assigning to a present key keeps its place.
\<close>

fun dict_set :: "key \<Rightarrow> 'v \<Rightarrow> 'v dict \<Rightarrow> 'v dict" where
  "dict_set k v [] = [(k, v)]"
| "dict_set k v ((k', v') # d) =
     (if k' = k then (k, v) # d else (k', v') # dict_set k v d)"

definition dict_get :: "'v dict \<Rightarrow> key \<Rightarrow> 'v option" where
  "dict_get d k = map_of d k"

subsection \<open>MetadataDB\<close>

type_synonym metadata = "(string \<times> string) list"

record document =
  doc_id :: int
  file_path :: string
  file_type :: string
  content_type :: string
  metadata :: metadata
  snippet :: string
  created_at :: nat

text \<open>
  The database file: the rows of table \<^verbatim>\<open>documents\<close> in insertion order, and the
  clock \<^verbatim>\<open>CURRENT_TIMESTAMP\<close> reads.
\<close>

record MetadataDB =
  documents :: "document list"
  current_timestamp :: nat

text \<open>
  \<^verbatim>\<open>id INTEGER PRIMARY KEY\<close> without a value: SQLite assigns one more than the
  largest id in the table, 1 for an empty table.
\<close>

definition max_rowid :: "document list \<Rightarrow> int" where
  "max_rowid rows = fold max (map doc_id rows) 0"

definition add_document ::
  "MetadataDB \<Rightarrow> string \<Rightarrow> string \<Rightarrow> string \<Rightarrow> metadata \<Rightarrow> string \<Rightarrow> int \<times> MetadataDB" where
  "add_document db fp ft ct md sn =
     (let lastrowid = max_rowid (documents db) + 1;
          row = \<lparr>doc_id = lastrowid, file_path = fp, file_type = ft, content_type = ct,
                 metadata = md, snippet = sn, created_at = current_timestamp db\<rparr>
      in (lastrowid, db\<lparr>documents := documents db @ [row]\<rparr>))"

text \<open>\<^verbatim>\<open>SELECT * FROM documents WHERE id = ?\<close>, then \<^verbatim>\<open>fetchone()\<close>.\<close>

definition get_document :: "MetadataDB \<Rightarrow> int \<Rightarrow> document option" where
  "get_document db i = find (\<lambda>r. doc_id r = i) (documents db)"

subsection \<open>The ANN engine\<close>

text \<open>
  Modelled from the spec: the ANN engine (the \<^verbatim>\<open>faiss\<close> library) is not part of the
  repository. Section 4.2 of the specification gives its contract: an index has a fixed
  dimension, \<open>insert\<close> appends and fails with a dimension error on a vector of another
  length, slots are positions in insertion order.
\<close>

record faiss_index =
  dim :: nat
  xb :: "vector list"
  type_name :: string

definition ntotal :: "faiss_index \<Rightarrow> int" where
  "ntotal ix = int (length (xb ix))"

definition index_add :: "faiss_index \<Rightarrow> vector list \<Rightarrow> error + faiss_index" where
  "index_add ix rows =
     (if list_all (\<lambda>r. length r = dim ix) rows then Inr (ix\<lparr>xb := xb ix @ rows\<rparr>)
      else Inl DimensionMismatch)"

text \<open>\<^verbatim>\<open>faiss.IndexHNSWFlat(self.embedding_dim, 32)\<close>.\<close>

definition IndexHNSWFlat :: "nat \<Rightarrow> faiss_index" where
  "IndexHNSWFlat d = \<lparr>dim = d, xb = [], type_name = ''IndexHNSWFlat''\<rparr>"

subsection \<open>The persisted files\<close>

text \<open>
  The index file holds a serialised index or bytes that \<^verbatim>\<open>faiss.read_index\<close>
  rejects; the mapping file holds a JSON object (its pairs in file order, keys are
  strings) or text that \<^verbatim>\<open>json.load\<close> rejects. \<open>writable\<close> says whether
  \<^verbatim>\<open>open(mapping_file, 'w')\<close> succeeds.
\<close>

datatype index_blob = Serialized faiss_index | CorruptIndex

datatype json_text = JsonObject "(string \<times> int) list" | Malformed

record files =
  index_file :: "index_blob option"
  mapping_file :: "json_text option"
  writable :: bool

text \<open>Python's \<^verbatim>\<open>str\<close> of an int, as \<^verbatim>\<open>json.dump\<close> writes a dict key.\<close>

definition digit_char :: "nat \<Rightarrow> char" where
  "digit_char n = char_of (48 + n)"

fun str_nat :: "nat \<Rightarrow> string" where
  "str_nat n = (if n < 10 then [digit_char n] else str_nat (n div 10) @ [digit_char (n mod 10)])"

definition str_int :: "int \<Rightarrow> string" where
  "str_int i = (if i < 0 then CHR ''-'' # str_nat (nat (- i)) else str_nat (nat i))"

fun key_str :: "key \<Rightarrow> string" where
  "key_str (KInt i) = str_int i"
| "key_str (KStr s) = s"

definition json_dump :: "int dict \<Rightarrow> json_text" where
  "json_dump d = JsonObject (map (\<lambda>(k, v). (key_str k, v)) d)"

text \<open>\<^verbatim>\<open>json.load\<close> of an object: a dict with str keys, a repeated key keeps its last value.\<close>

definition json_load :: "json_text \<Rightarrow> error + int dict" where
  "json_load t =
     (case t of
        Malformed \<Rightarrow> Inl JSONDecodeError
      | JsonObject kvs \<Rightarrow> Inr (fold (\<lambda>(k, v) d. dict_set (KStr k) v d) kvs []))"

subsection \<open>FaissIndex\<close>

datatype message =
    LoadedExisting int
  | ErrorLoading error
  | CreatingNew
  | CreatedNew nat
  | Saved int
  | NoIndexToSave

text \<open>
  The object's attributes, with the files and the database it points at and the lines
  it has printed. \<open>lock\<close> is true while \<^verbatim>\<open>self.lock\<close> is held.
\<close>

record FaissIndex =
  metadata_db :: MetadataDB
  embedding_dim :: nat
  index :: "faiss_index option"
  id_to_doc_id :: "int dict"
  next_faiss_id :: int
  lock :: bool
  disk :: files
  printed :: "message list"

definition print :: "message \<Rightarrow> FaissIndex \<Rightarrow> FaissIndex" where
  "print m s = s\<lparr>printed := printed s @ [m]\<rparr>"

definition create_new_index :: "FaissIndex \<Rightarrow> FaissIndex" where
  "create_new_index s =
     print (CreatedNew (embedding_dim s)) (s\<lparr>index := Some (IndexHNSWFlat (embedding_dim s))\<rparr>)"

text \<open>
  \<^verbatim>\<open>_save_mapping\<close>: the mapping file is written first, then the index file.
  Writing a missing index raises after the mapping has been written.
\<close>

definition save_mapping :: "FaissIndex \<Rightarrow> (error + unit) \<times> FaissIndex" where
  "save_mapping s =
     (if \<not> writable (disk s) then (Inl OSError, s)
      else
        let s1 = s\<lparr>disk := (disk s)\<lparr>mapping_file := Some (json_dump (id_to_doc_id s))\<rparr>\<rparr>
        in (case index s1 of
              None \<Rightarrow> (Inl TypeError, s1)
            | Some ix \<Rightarrow>
                (Inr (), s1\<lparr>disk := (disk s1)\<lparr>index_file := Some (Serialized ix)\<rparr>\<rparr>)))"

text \<open>The body of \<^verbatim>\<open>add_vector\<close> under the lock.\<close>

definition add_vector_body ::
  "FaissIndex \<Rightarrow> ndarray \<Rightarrow> string \<Rightarrow> string \<Rightarrow> string \<Rightarrow> metadata \<Rightarrow> string
     \<Rightarrow> (error + int) \<times> FaissIndex" where
  "add_vector_body s vector fp ft ct md sn =
     (case index s of
        None \<Rightarrow> (Inl RuntimeError, s)
      | Some ix \<Rightarrow>
          let (doc, db') = add_document (metadata_db s) fp ft ct md sn;
              s1 = s\<lparr>metadata_db := db'\<rparr>
          in (case index_add ix (expand_dims vector) of
                Inl e \<Rightarrow> (Inl e, s1)
              | Inr ix' \<Rightarrow>
                  let s2 = s1\<lparr>index := Some ix'\<rparr>;
                      faiss_id = next_faiss_id s2;
                      s3 = s2\<lparr>id_to_doc_id := dict_set (KInt faiss_id) doc (id_to_doc_id s2)\<rparr>;
                      s4 = s3\<lparr>next_faiss_id := next_faiss_id s3 + 1\<rparr>
                  in (case save_mapping s4 of
                        (Inl e, s5) \<Rightarrow> (Inl e, s5)
                      | (Inr u, s5) \<Rightarrow> (Inr faiss_id, s5))))"

text \<open>
  \<^verbatim>\<open>with self.lock:\<close> takes the lock, runs the body and releases the lock on every
  way out of the body.
\<close>

definition with_lock ::
  "(FaissIndex \<Rightarrow> (error + 'a) \<times> FaissIndex) \<Rightarrow> FaissIndex \<Rightarrow> (error + 'a) \<times> FaissIndex" where
  "with_lock body s =
     (if lock s then (Inl Blocks, s)
      else (case body (s\<lparr>lock := True\<rparr>) of (r, s') \<Rightarrow> (r, s'\<lparr>lock := False\<rparr>)))"

definition add_vector ::
  "FaissIndex \<Rightarrow> ndarray \<Rightarrow> string \<Rightarrow> string \<Rightarrow> string \<Rightarrow> metadata \<Rightarrow> string
     \<Rightarrow> (error + int) \<times> FaissIndex" where
  "add_vector s vector fp ft ct md sn =
     with_lock (\<lambda>s'. add_vector_body s' vector fp ft ct md sn) s"

text \<open>
  The same body cut after \<^verbatim>\<open>self.index.add(...)\<close>: the statements up to and
  including the insertion into the index, then the statements from
  \<^verbatim>\<open>faiss_id = self.next_faiss_id\<close> on. Between the two another thread may run.
\<close>

definition add_vector_until_indexed ::
  "FaissIndex \<Rightarrow> ndarray \<Rightarrow> string \<Rightarrow> string \<Rightarrow> string \<Rightarrow> metadata \<Rightarrow> string
     \<Rightarrow> (error + int) \<times> FaissIndex" where
  "add_vector_until_indexed s vector fp ft ct md sn =
     (case index s of
        None \<Rightarrow> (Inl RuntimeError, s)
      | Some ix \<Rightarrow>
          let (doc, db') = add_document (metadata_db s) fp ft ct md sn;
              s1 = s\<lparr>metadata_db := db'\<rparr>
          in (case index_add ix (expand_dims vector) of
                Inl e \<Rightarrow> (Inl e, s1)
              | Inr ix' \<Rightarrow> (Inr doc, s1\<lparr>index := Some ix'\<rparr>)))"

definition add_vector_record :: "FaissIndex \<Rightarrow> int \<Rightarrow> (error + int) \<times> FaissIndex" where
  "add_vector_record s2 doc =
     (let faiss_id = next_faiss_id s2;
          s3 = s2\<lparr>id_to_doc_id := dict_set (KInt faiss_id) doc (id_to_doc_id s2)\<rparr>;
          s4 = s3\<lparr>next_faiss_id := next_faiss_id s3 + 1\<rparr>
      in (case save_mapping s4 of
            (Inl e, s5) \<Rightarrow> (Inl e, s5)
          | (Inr u, s5) \<Rightarrow> (Inr faiss_id, s5)))"

text \<open>\<^verbatim>\<open>save\<close>: \<^verbatim>\<open>if self.index:\<close> is true of every index object.\<close>

definition save_body :: "FaissIndex \<Rightarrow> (error + unit) \<times> FaissIndex" where
  "save_body s =
     (case index s of
        Some ix \<Rightarrow>
          (case save_mapping s of
             (Inl e, s') \<Rightarrow> (Inl e, s')
           | (Inr u, s') \<Rightarrow> (Inr (), print (Saved (ntotal ix)) s'))
      | None \<Rightarrow> (Inr (), print NoIndexToSave s))"

definition save :: "FaissIndex \<Rightarrow> (error + unit) \<times> FaissIndex" where
  "save s = with_lock save_body s"

subsection \<open>Loading\<close>

text \<open>
  Python's \<^verbatim>\<open>x > y\<close> on dict keys: ints by value, strs by code points, a str
  against an int raises TypeError.
\<close>

fun str_less :: "string \<Rightarrow> string \<Rightarrow> bool" where
  "str_less [] [] = False"
| "str_less [] (b # bs) = True"
| "str_less (a # as) [] = False"
| "str_less (a # as) (b # bs) =
     (if a = b then str_less as bs else (of_char a :: nat) < of_char b)"

fun key_gt :: "key \<Rightarrow> key \<Rightarrow> error + bool" where
  "key_gt (KInt a) (KInt b) = Inr (b < a)"
| "key_gt (KStr a) (KStr b) = Inr (str_less b a)"
| "key_gt (KInt a) (KStr b) = Inl TypeError"
| "key_gt (KStr a) (KInt b) = Inl TypeError"

text \<open>\<^verbatim>\<open>max(...)\<close> of a non-empty sequence: the running maximum, replaced by a greater item.\<close>

fun py_max_from :: "key \<Rightarrow> key list \<Rightarrow> error + key" where
  "py_max_from m [] = Inr m"
| "py_max_from m (x # xs) =
     (case key_gt x m of
        Inl e \<Rightarrow> Inl e
      | Inr b \<Rightarrow> py_max_from (if b then x else m) xs)"

fun plus_one :: "key \<Rightarrow> error + int" where
  "plus_one (KInt i) = Inr (i + 1)"
| "plus_one (KStr s) = Inl TypeError"

text \<open>\<^verbatim>\<open>max(self.id_to_doc_id.keys()) + 1 if self.id_to_doc_id else 0\<close>.\<close>

definition next_id_of :: "int dict \<Rightarrow> error + int" where
  "next_id_of d =
     (case map fst d of
        [] \<Rightarrow> Inr 0
      | k # ks \<Rightarrow> (case py_max_from k ks of Inl e \<Rightarrow> Inl e | Inr m \<Rightarrow> plus_one m))"

text \<open>The \<^verbatim>\<open>try\<close> block of \<^verbatim>\<open>_load_or_create_index\<close>.\<close>

definition load_index :: "FaissIndex \<Rightarrow> index_blob \<Rightarrow> (error + unit) \<times> FaissIndex" where
  "load_index s blob =
     (case blob of
        CorruptIndex \<Rightarrow> (Inl ReadIndexError, s)
      | Serialized ix \<Rightarrow>
          let s1 = s\<lparr>index := Some ix\<rparr>
          in (case mapping_file (disk s1) of
                None \<Rightarrow> (Inr (), print (LoadedExisting (ntotal ix)) s1)
              | Some t \<Rightarrow>
                  (case json_load t of
                     Inl e \<Rightarrow> (Inl e, s1)
                   | Inr d \<Rightarrow>
                       let s2 = s1\<lparr>id_to_doc_id := d\<rparr>
                       in (case next_id_of d of
                             Inl e \<Rightarrow> (Inl e, s2)
                           | Inr n \<Rightarrow>
                               (Inr (), print (LoadedExisting (ntotal ix))
                                          (s2\<lparr>next_faiss_id := n\<rparr>))))))"

definition load_or_create_index :: "FaissIndex \<Rightarrow> FaissIndex" where
  "load_or_create_index s =
     (case index_file (disk s) of
        Some blob \<Rightarrow>
          (case load_index s blob of
             (Inr u, s') \<Rightarrow> s'
           | (Inl e, s') \<Rightarrow> create_new_index (print CreatingNew (print (ErrorLoading e) s')))
      | None \<Rightarrow> create_new_index s)"

text \<open>
  \<^verbatim>\<open>FaissIndex.__init__\<close>: the files and the database the paths point at, and the
  dimension \<^verbatim>\<open>get_embedding_dim()\<close> returns.
\<close>

definition FaissIndex_init :: "files \<Rightarrow> MetadataDB \<Rightarrow> nat \<Rightarrow> FaissIndex" where
  "FaissIndex_init fs db d =
     load_or_create_index
       \<lparr>metadata_db = db, embedding_dim = d, index = None, id_to_doc_id = [],
        next_faiss_id = 0, lock = False, disk = fs, printed = []\<rparr>"

subsection \<open>Search\<close>

text \<open>
  Modelled from the spec: the engine's top-k search is not part of the repository and
  is approximate. It is a parameter: given the index, one query row and k it returns
  the (distance, slot) pairs of that row, with slot -1 for "no more candidates".
  \<open>index_search\<close> adds the engine's dimension check and answers every query row.
\<close>

type_synonym engine = "faiss_index \<Rightarrow> vector \<Rightarrow> int \<Rightarrow> (real \<times> int) list"

definition index_search ::
  "engine \<Rightarrow> faiss_index \<Rightarrow> vector list \<Rightarrow> int \<Rightarrow> error + (real \<times> int) list list" where
  "index_search eng ix rows k =
     (if list_all (\<lambda>r. length r = dim ix) rows then Inr (map (\<lambda>q. eng ix q k) rows)
      else Inl DimensionMismatch)"

record search_result =
  score :: real
  distance :: real
  faiss_id :: int
  document :: document

text \<open>
  The loop over \<^verbatim>\<open>zip(distances[0], indices[0])\<close>. \<^verbatim>\<open>if doc_id:\<close> is false for
  a missing key and for the id 0; \<^verbatim>\<open>if doc:\<close> is false for a missing row.
\<close>

fun join_results :: "FaissIndex \<Rightarrow> (real \<times> int) list \<Rightarrow> search_result list" where
  "join_results s [] = []"
| "join_results s ((dis, idx) # rest) =
     (if idx = - 1 then join_results s rest
      else
        (case dict_get (id_to_doc_id s) (KInt idx) of
           None \<Rightarrow> join_results s rest
         | Some d \<Rightarrow>
             if d = 0 then join_results s rest
             else
               (case get_document (metadata_db s) d of
                  None \<Rightarrow> join_results s rest
                | Some doc \<Rightarrow>
                    \<lparr>score = dis, distance = dis, faiss_id = idx, document = doc\<rparr>
                      # join_results s rest)))"

definition search ::
  "engine \<Rightarrow> FaissIndex \<Rightarrow> ndarray \<Rightarrow> int \<Rightarrow> (error + search_result list) \<times> FaissIndex" where
  "search eng s query_vector k =
     (case index s of
        None \<Rightarrow> (Inr [], s)
      | Some ix \<Rightarrow>
          if ntotal ix = 0 then (Inr [], s)
          else
            (case index_search eng ix (expand_dims query_vector) (min k (ntotal ix)) of
               Inl e \<Rightarrow> (Inl e, s)
             | Inr [] \<Rightarrow> (Inl IndexError, s)
             | Inr (row0 # others) \<Rightarrow> (Inr (join_results s row0), s)))"

record stats =
  total_vectors :: int
  embedding_dim' :: nat
  index_type :: string

definition get_stats :: "FaissIndex \<Rightarrow> stats" where
  "get_stats s =
     \<lparr>total_vectors = (case index s of Some ix \<Rightarrow> ntotal ix | None \<Rightarrow> 0),
      embedding_dim' = embedding_dim s,
      index_type = (case index s of Some ix \<Rightarrow> type_name ix | None \<Rightarrow> ''None'')\<rparr>"

text \<open>
  An exact engine, to run the model on concrete inputs: squared Euclidean distance to
  every stored vector, ascending, the first k.
\<close>

definition l2_sqr :: "vector \<Rightarrow> vector \<Rightarrow> real" where
  "l2_sqr q v = sum_list (map (\<lambda>(a, b). (a - b) * (a - b)) (zip q v))"

definition flat_search :: engine where
  "flat_search ix q k =
     take (nat k) (sort_key fst (zip (map (l2_sqr q) (xb ix)) (map int [0..<length (xb ix)])))"

subsection \<open>Text search in the metadata store\<close>

text \<open>
  SQLite's \<^verbatim>\<open>LIKE\<close> with no \<^verbatim>\<open>ESCAPE\<close>: in the pattern \<^verbatim>\<open>%\<close> matches any run of
  characters, \<^verbatim>\<open>_\<close> matches any one character, and any other character matches
  itself without regard to the case of ASCII letters.
\<close>

definition ascii_upper :: "char \<Rightarrow> char" where
  "ascii_upper c =
     (let n = (of_char c :: nat) in if 97 \<le> n \<and> n \<le> 122 then char_of (n - 32) else c)"

fun like :: "string \<Rightarrow> string \<Rightarrow> bool" where
  "like [] s = (s = [])"
| "like (p # ps) [] = (p = CHR ''%'' \<and> like ps [])"
| "like (p # ps) (c # cs) =
     (if p = CHR ''%'' then like ps (c # cs) \<or> like (p # ps) cs
      else (p = CHR ''_'' \<or> ascii_upper p = ascii_upper c) \<and> like ps cs)"

text \<open>\<^verbatim>\<open>LIMIT ?\<close>: a negative limit is no limit.\<close>

definition sql_limit :: "int \<Rightarrow> 'a list \<Rightarrow> 'a list" where
  "sql_limit n xs = (if n < 0 then xs else take (nat n) xs)"

text \<open>
  \<^verbatim>\<open>SELECT * FROM documents WHERE snippet LIKE ? ORDER BY id DESC LIMIT ?\<close> with
  the pattern \<^verbatim>\<open>f'%{query}%'\<close>.
\<close>

definition search_documents :: "MetadataDB \<Rightarrow> string \<Rightarrow> int \<Rightarrow> document list" where
  "search_documents db query limit =
     sql_limit limit
       (rev (sort_key doc_id
          (filter (\<lambda>r. like (''%'' @ query @ ''%'') (snippet r)) (documents db))))"

subsection \<open>Runs and predicates the properties are stated with\<close>

text \<open>
  A sequence of \<^verbatim>\<open>add_vector\<close> calls, each of which returns a slot; the run has no
  final state when a call raises.
\<close>

type_synonym add_call = "ndarray \<times> string \<times> string \<times> string \<times> metadata \<times> string"

fun add_all :: "FaissIndex \<Rightarrow> add_call list \<Rightarrow> FaissIndex option" where
  "add_all s [] = Some s"
| "add_all s ((v, fp, ft, ct, md, sn) # calls) =
     (case add_vector s v fp ft ct md sn of
        (Inr slot, s') \<Rightarrow> add_all s' calls
      | (Inl e, s') \<Rightarrow> None)"

text \<open>The array holds one vector: a 1-D array, or a 2-D array of one row.\<close>

definition one_vector :: "ndarray \<Rightarrow> bool" where
  "one_vector a = (length (expand_dims a) = 1)"

text \<open>No persisted files on a writable disk, and a database with an empty table.\<close>

definition no_files :: files where
  "no_files = \<lparr>index_file = None, mapping_file = None, writable = True\<rparr>"

definition empty_db :: MetadataDB where
  "empty_db = \<lparr>documents = [], current_timestamp = 0\<rparr>"

text \<open>
  A slot the loop of \<^verbatim>\<open>search\<close> keeps: not -1, mapped to a non-zero document id
  whose row exists.
\<close>

definition resolves :: "FaissIndex \<Rightarrow> int \<Rightarrow> bool" where
  "resolves s idx =
     (idx \<noteq> - 1 \<and>
      (case dict_get (id_to_doc_id s) (KInt idx) of
         None \<Rightarrow> False
       | Some d \<Rightarrow> d \<noteq> 0 \<and> get_document (metadata_db s) d \<noteq> None))"

text \<open>
  The specification's words for the text search: the snippet contains the query as a
  substring; and the same up to the case of ASCII letters.
\<close>

definition contains :: "string \<Rightarrow> string \<Rightarrow> bool" where
  "contains t q = list_ex (\<lambda>i. take (length q) (drop i t) = q) [0..<Suc (length t)]"

definition contains_nocase :: "string \<Rightarrow> string \<Rightarrow> bool" where
  "contains_nocase t q = contains (map ascii_upper t) (map ascii_upper q)"

text \<open>
  The state the insert protocol keeps: with n vectors in the index, the next slot is n,
  the mapping's keys are the ints 0 .. n-1 in order, and the table holds n rows whose
  largest id is n.
\<close>

definition in_step :: "FaissIndex \<Rightarrow> bool" where
  "in_step s =
     (case index s of
        None \<Rightarrow> False
      | Some ix \<Rightarrow>
          next_faiss_id s = ntotal ix \<and>
          map fst (id_to_doc_id s) = map (\<lambda>i. KInt (int i)) [0..<length (xb ix)] \<and>
          length (documents (metadata_db s)) = length (xb ix) \<and>
          max_rowid (documents (metadata_db s)) = ntotal ix)"

text \<open>
  Concrete inputs: the specification's scenario in dimension 4, from a first start with
  no files.
\<close>

definition fresh :: FaissIndex where
  "fresh = FaissIndex_init no_files empty_db 4"

definition call_a :: add_call where
  "call_a = (Arr1 [1, 0, 0, 0], ''a.txt'', ''txt'', ''text'', [], ''alpha'')"

definition call_b :: add_call where
  "call_b = (Arr1 [0, 1, 0, 0], ''b.txt'', ''txt'', ''text'', [], ''beta'')"

definition after_a :: FaissIndex where
  "after_a = snd (add_vector fresh (Arr1 [1, 0, 0, 0]) ''a.txt'' ''txt'' ''text'' [] ''alpha'')"

definition doc_a :: document where
  "doc_a = \<lparr>doc_id = 1, file_path = ''a.txt'', file_type = ''txt'', content_type = ''text'',
            metadata = [], snippet = ''alpha'', created_at = 0\<rparr>"

definition index_a :: faiss_index where
  "index_a = \<lparr>dim = 4, xb = [[1, 0, 0, 0]], type_name = ''IndexHNSWFlat''\<rparr>"

definition doc_b :: document where
  "doc_b = \<lparr>doc_id = 2, file_path = ''b.txt'', file_type = ''txt'', content_type = ''text'',
            metadata = [], snippet = ''beta'', created_at = 0\<rparr>"

definition two_docs :: MetadataDB where
  "two_docs = \<lparr>documents = [doc_a, doc_b], current_timestamp = 0\<rparr>"

text \<open>
  Files found at start-up: an index file of one vector with no mapping file, with an
  empty mapping, and with a mapping whose only key is 5.
\<close>

definition index_only_files :: files where
  "index_only_files =
     \<lparr>index_file = Some (Serialized index_a), mapping_file = None, writable = True\<rparr>"

definition empty_mapping_files :: files where
  "empty_mapping_files =
     \<lparr>index_file = Some (Serialized index_a), mapping_file = Some (JsonObject []),
      writable = True\<rparr>"

definition stale_mapping_files :: files where
  "stale_mapping_files =
     \<lparr>index_file = Some (Serialized index_a), mapping_file = Some (JsonObject [(''5'', 7)]),
      writable = True\<rparr>"

text \<open>A first start on a disk that cannot be written.\<close>

definition read_only :: FaissIndex where
  "read_only = fresh\<lparr>disk := no_files\<lparr>writable := False\<rparr>\<rparr>"

text \<open>All rows of a query have the index's dimension.\<close>

definition rows_fit :: "faiss_index \<Rightarrow> vector list \<Rightarrow> bool" where
  "rows_fit ix rows = list_all (\<lambda>r. length r = dim ix) rows"

text \<open>
  A thread inside \<^verbatim>\<open>add_vector\<close> on a first start, holding the lock, after
  \<^verbatim>\<open>self.index.add(...)\<close> and before the mapping entry is stored.
\<close>

definition mid_add :: FaissIndex where
  "mid_add =
     snd (add_vector_until_indexed (fresh\<lparr>lock := True\<rparr>) (Arr1 [1, 0, 0, 0])
            ''a.txt'' ''txt'' ''text'' [] ''alpha'')"

section \<open>Properties\<close>

subsection \<open>Auxiliary facts\<close>

lemma fresh_state:
  "FaissIndex_init no_files empty_db d =
     \<lparr>metadata_db = empty_db, embedding_dim = d, index = Some (IndexHNSWFlat d),
      id_to_doc_id = [], next_faiss_id = 0, lock = False, disk = no_files,
      printed = [CreatedNew d]\<rparr>"
  by (simp add: FaissIndex_init_def load_or_create_index_def create_new_index_def print_def
        no_files_def)

lemma str_nat_digits:
  "str_nat 0 = ''0''" "str_nat 1 = ''1''" "str_nat 2 = ''2''"
  by code_simp+

lemma after_a_state:
  "after_a =
     \<lparr>metadata_db = \<lparr>documents = [doc_a], current_timestamp = 0\<rparr>, embedding_dim = 4,
      index = Some index_a, id_to_doc_id = [(KInt 0, 1)], next_faiss_id = 1, lock = False,
      disk = \<lparr>index_file = Some (Serialized index_a),
               mapping_file = Some (JsonObject [(''0'', 1)]), writable = True\<rparr>,
      printed = [CreatedNew 4]\<rparr>"
  unfolding after_a_def fresh_def fresh_state
  by (simp add: add_vector_def with_lock_def add_vector_body_def add_document_def
        index_add_def IndexHNSWFlat_def empty_db_def max_rowid_def Let_def save_mapping_def
        no_files_def doc_a_def index_a_def json_dump_def str_int_def str_nat_digits
        del: str_nat.simps)

lemma index_add_wrong_dim:
  "length v \<noteq> dim ix \<Longrightarrow> index_add ix [v] = Inl DimensionMismatch"
  by (simp add: index_add_def)

lemma dict_set_fresh:
  "k \<notin> fst ` set d \<Longrightarrow> dict_set k v d = d @ [(k, v)]"
  by (induction d) auto

lemma fresh_slot:
  "KInt (int n) \<notin> fst ` set d" if "map fst d = map (\<lambda>i. KInt (int i)) [0..<n]"
proof -
  have "fst ` set d = set (map fst d)" by simp
  also have "\<dots> = (\<lambda>i. KInt (int i)) ` {0..<n}" using that by simp
  finally show ?thesis by auto
qed

lemma add_vector_in_step:
  assumes "in_step s" and "one_vector v" and "add_vector s v fp ft ct md sn = (Inr slot, s')"
  shows "in_step s' \<and> slot = next_faiss_id s"
proof -
  from assms(1) obtain ix where ix: "index s = Some ix"
    and nx: "next_faiss_id s = ntotal ix"
    and ks: "map fst (id_to_doc_id s) = map (\<lambda>i. KInt (int i)) [0..<length (xb ix)]"
    and ln: "length (documents (metadata_db s)) = length (xb ix)"
    and mx: "max_rowid (documents (metadata_db s)) = ntotal ix"
    by (auto simp: in_step_def split: option.splits)
  from assms(2) obtain r where r: "expand_dims v = [r]"
    by (cases "expand_dims v") (auto simp: one_vector_def)
  have fresh: "dict_set (KInt (ntotal ix)) x (id_to_doc_id s) =
      id_to_doc_id s @ [(KInt (ntotal ix), x)]" for x
    using fresh_slot[OF ks] by (simp add: dict_set_fresh ntotal_def)
  show ?thesis
    using assms(3) ix nx ks ln mx r fresh
    by (auto simp: add_vector_def with_lock_def add_vector_body_def add_document_def Let_def
          index_add_def save_mapping_def in_step_def ntotal_def max_rowid_def
          split: if_splits prod.splits sum.splits option.splits)
qed

lemma add_vector_next:
  "add_vector s v fp ft ct md sn = (Inr slot, s') \<Longrightarrow> next_faiss_id s' = next_faiss_id s + 1"
  by (auto simp: add_vector_def with_lock_def add_vector_body_def add_document_def Let_def
        index_add_def save_mapping_def split: if_splits prod.splits sum.splits option.splits)

lemma add_all_in_step:
  "in_step s \<Longrightarrow> list_all one_vector (map fst calls) \<Longrightarrow> add_all s calls = Some s'
     \<Longrightarrow> in_step s' \<and> next_faiss_id s' = next_faiss_id s + int (length calls)"
proof (induction calls arbitrary: s)
  case Nil
  then show ?case by simp
next
  case (Cons c calls)
  obtain v fp ft ct md sn where c: "c = (v, fp, ft, ct, md, sn)" by (cases c) auto
  from Cons.prems(3) c obtain slot s1 where
    a: "add_vector s v fp ft ct md sn = (Inr slot, s1)" and rest: "add_all s1 calls = Some s'"
    by (auto split: prod.splits sum.splits)
  from Cons.prems(2) c have ov: "one_vector v" and ovs: "list_all one_vector (map fst calls)"
    by auto
  from add_vector_in_step[OF Cons.prems(1) ov a] have s1: "in_step s1" by auto
  from Cons.IH[OF s1 ovs rest] add_vector_next[OF a] show ?case by simp
qed

lemma fresh_in_step:
  "index_file fs = None \<Longrightarrow> documents db = [] \<Longrightarrow> in_step (FaissIndex_init fs db d)"
  by (simp add: FaissIndex_init_def load_or_create_index_def create_new_index_def print_def
        in_step_def IndexHNSWFlat_def ntotal_def max_rowid_def)

lemma in_step_counts:
  assumes "in_step s"
  shows "total_vectors (get_stats s) = int (length (id_to_doc_id s)) \<and>
         int (length (id_to_doc_id s)) = int (length (documents (metadata_db s))) \<and>
         int (length (documents (metadata_db s))) = max_rowid (documents (metadata_db s)) \<and>
         next_faiss_id s = total_vectors (get_stats s) \<and>
         fst ` set (id_to_doc_id s) = KInt ` {0 ..< next_faiss_id s} \<and>
         distinct (map fst (id_to_doc_id s))"
proof -
  from assms obtain ix where ix: "index s = Some ix"
    and nx: "next_faiss_id s = ntotal ix"
    and ks: "map fst (id_to_doc_id s) = map (\<lambda>i. KInt (int i)) [0..<length (xb ix)]"
    and ln: "length (documents (metadata_db s)) = length (xb ix)"
    and mx: "max_rowid (documents (metadata_db s)) = ntotal ix"
    by (auto simp: in_step_def split: option.splits)
  have len: "length (id_to_doc_id s) = length (xb ix)"
    using arg_cong[OF ks, of length] by simp
  have "fst ` set (id_to_doc_id s) = set (map fst (id_to_doc_id s))" by simp
  also have "\<dots> = (\<lambda>i. KInt (int i)) ` {0..<length (xb ix)}" by (simp add: ks)
  also have "\<dots> = KInt ` (int ` {0..<length (xb ix)})" by (simp add: image_image)
  also have "int ` {0..<length (xb ix)} = {0..<int (length (xb ix))}"
    by (simp add: image_int_atLeastLessThan)
  finally have dom: "fst ` set (id_to_doc_id s) = KInt ` {0 ..< next_faiss_id s}"
    by (simp add: nx ntotal_def)
  have dist: "distinct (map fst (id_to_doc_id s))"
    by (simp add: ks distinct_map inj_on_def)
  show ?thesis using ix nx ln mx len dom dist by (simp add: get_stats_def ntotal_def)
qed

lemma join_results_slots:
  "map faiss_id (join_results s hits) = filter (resolves s) (map snd hits)"
  by (induction s hits rule: join_results.induct)
     (auto simp: resolves_def split: option.splits)

lemma join_results_joined:
  "r \<in> set (join_results s hits) \<Longrightarrow>
     (\<exists>d. dict_get (id_to_doc_id s) (KInt (faiss_id r)) = Some d \<and>
          get_document (metadata_db s) d = Some (document r)) \<and>
     (distance r, faiss_id r) \<in> set hits \<and> score r = distance r"
  by (induction s hits rule: join_results.induct)
     (auto split: option.splits if_splits)

lemma flat_search_a:
  "flat_search index_a [1, 0, 0, 0] 1 = [(0, 0)]"
  by (simp add: flat_search_def index_a_def l2_sqr_def)

lemma ntotal_index_a: "ntotal index_a = 1"
  by (simp add: ntotal_def index_a_def)

subsection \<open>Insertion with a vector of the wrong length\<close>

text \<open>
  C1 (as the code has it). A call of \<^verbatim>\<open>add_vector\<close> with a vector whose length is not
  the index's dimension raises the engine's dimension error and leaves the index, the
  mapping, the next slot and the files as they were; but the document row has been
  written before the vector reaches the engine, so the table has one row more and the
  last assigned document id is one larger.
\<close>

theorem add_wrong_dimension:
  assumes "index s = Some ix" and "length v \<noteq> dim ix" and "\<not> lock s"
  shows "\<exists>s'. add_vector s (Arr1 v) fp ft ct md sn = (Inl DimensionMismatch, s') \<and>
           index s' = index s \<and> id_to_doc_id s' = id_to_doc_id s \<and>
           next_faiss_id s' = next_faiss_id s \<and> disk s' = disk s \<and> lock s' = lock s \<and>
           length (documents (metadata_db s')) = length (documents (metadata_db s)) + 1 \<and>
           max_rowid (documents (metadata_db s')) = max_rowid (documents (metadata_db s)) + 1"
  using assms
  by (auto simp: add_vector_def with_lock_def add_vector_body_def index_add_wrong_dim
        add_document_def Let_def max_rowid_def split: prod.splits)

theorem add_wrong_dimension_witness:
  "\<exists>s'. add_vector fresh (Arr1 [1, 0]) ''a.txt'' ''txt'' ''text'' [] ''alpha'' =
            (Inl DimensionMismatch, s') \<and>
        index s' = index fresh \<and> id_to_doc_id s' = id_to_doc_id fresh \<and>
        next_faiss_id s' = next_faiss_id fresh \<and> disk s' = disk fresh \<and>
        lock s' = lock fresh \<and>
        length (documents (metadata_db s')) = length (documents (metadata_db fresh)) + 1 \<and>
        max_rowid (documents (metadata_db s')) = max_rowid (documents (metadata_db fresh)) + 1"
  by (rule add_wrong_dimension [where ix = "IndexHNSWFlat 4"])
     (simp_all add: fresh_def fresh_state IndexHNSWFlat_def)

text \<open>
  The claim as stated fails: on a first start in dimension 4, adding a vector of length
  2 raises, and the last assigned document id goes from 0 to 1.
\<close>

theorem add_wrong_dimension_writes_metadata:
  "fst (add_vector fresh (Arr1 [1, 0]) ''a.txt'' ''txt'' ''text'' [] ''alpha'') =
     Inl DimensionMismatch \<and>
   max_rowid (documents (metadata_db fresh)) = 0 \<and>
   max_rowid (documents (metadata_db
     (snd (add_vector fresh (Arr1 [1, 0]) ''a.txt'' ''txt'' ''text'' [] ''alpha'')))) = 1"
  unfolding fresh_def fresh_state
  by (simp add: add_vector_def with_lock_def add_vector_body_def add_document_def
        index_add_def IndexHNSWFlat_def empty_db_def max_rowid_def Let_def)

subsection \<open>Counts after successful insertions\<close>

text \<open>
  C3. From a first start (no index file, an empty table), after any sequence of
  \<^verbatim>\<open>add_vector\<close> calls that each pass one vector and each return a slot: the index's
  vector count, the size of the mapping and the number of document ids assigned are
  equal (and equal the number of calls), the next slot is the vector count, and the
  mapping's keys are exactly the ints 0 .. next slot - 1, none twice.
\<close>

theorem adds_keep_counts_equal:
  assumes "index_file fs = None" and "documents db = []"
    and "list_all one_vector (map fst calls)"
    and "add_all (FaissIndex_init fs db d) calls = Some s"
  shows "total_vectors (get_stats s) = int (length (id_to_doc_id s)) \<and>
         int (length (id_to_doc_id s)) = int (length (documents (metadata_db s))) \<and>
         int (length (documents (metadata_db s))) = max_rowid (documents (metadata_db s)) \<and>
         next_faiss_id s = total_vectors (get_stats s) \<and>
         fst ` set (id_to_doc_id s) = KInt ` {0 ..< next_faiss_id s} \<and>
         distinct (map fst (id_to_doc_id s)) \<and>
         total_vectors (get_stats s) = int (length calls)"
proof -
  have start: "in_step (FaissIndex_init fs db d)"
    using assms(1,2) by (rule fresh_in_step)
  have zero: "next_faiss_id (FaissIndex_init fs db d) = 0"
    using assms(1)
    by (simp add: FaissIndex_init_def load_or_create_index_def create_new_index_def print_def)
  from add_all_in_step[OF start assms(3,4)] zero
  have fin: "in_step s" and n: "next_faiss_id s = int (length calls)" by auto
  from in_step_counts[OF fin] n show ?thesis by simp
qed

theorem adds_keep_counts_equal_witness:
  "\<exists>s. add_all (FaissIndex_init no_files empty_db 4) [call_a, call_b] = Some s \<and>
       total_vectors (get_stats s) = int (length (id_to_doc_id s)) \<and>
       int (length (id_to_doc_id s)) = int (length (documents (metadata_db s))) \<and>
       int (length (documents (metadata_db s))) = max_rowid (documents (metadata_db s)) \<and>
       next_faiss_id s = total_vectors (get_stats s) \<and>
       fst ` set (id_to_doc_id s) = KInt ` {0 ..< next_faiss_id s} \<and>
       distinct (map fst (id_to_doc_id s)) \<and>
       total_vectors (get_stats s) = 2"
proof -
  have "\<exists>s. add_all (FaissIndex_init no_files empty_db 4) [call_a, call_b] = Some s"
    unfolding fresh_state
    by (simp add: call_a_def call_b_def add_vector_def with_lock_def add_vector_body_def
          add_document_def index_add_def IndexHNSWFlat_def empty_db_def max_rowid_def Let_def
          save_mapping_def no_files_def)
  then obtain s where run: "add_all (FaissIndex_init no_files empty_db 4) [call_a, call_b] = Some s"
    by blast
  have one: "list_all one_vector (map fst [call_a, call_b])"
    by (simp add: call_a_def call_b_def one_vector_def)
  have "index_file no_files = None" and "documents empty_db = []"
    by (simp_all add: no_files_def empty_db_def)
  from adds_keep_counts_equal[OF this one run] run show ?thesis by auto
qed

subsection \<open>Search joins and drops\<close>

text \<open>
  C8. For a query whose rows have the index's dimension, \<^verbatim>\<open>search\<close> returns a list
  and never raises, whatever the mapping and the table hold. Every element of the list
  carries the document its slot's mapping entry names, and on a non-empty index the
  slots returned are exactly those of the engine's hits that resolve, in the engine's
  order: a hit with slot -1, with no mapping entry or with no document row is dropped.
\<close>

theorem search_drops_unresolved:
  assumes "index s = Some ix" and "expand_dims qv = q # qs"
    and "list_all (\<lambda>r. length r = dim ix) (q # qs)"
  shows "\<exists>rs. search eng s qv k = (Inr rs, s) \<and>
           (\<forall>r \<in> set rs. \<exists>d. dict_get (id_to_doc_id s) (KInt (faiss_id r)) = Some d \<and>
                              get_document (metadata_db s) d = Some (document r)) \<and>
           (ntotal ix \<noteq> 0 \<longrightarrow>
              map faiss_id rs =
                filter (resolves s) (map snd (eng ix q (min k (ntotal ix)))))"
proof (cases "ntotal ix = 0")
  case True
  with assms(1) show ?thesis by (simp add: search_def)
next
  case False
  let ?hits = "eng ix q (min k (ntotal ix))"
  have "search eng s qv k = (Inr (join_results s ?hits), s)"
    using assms False by (simp add: search_def index_search_def)
  moreover have "\<forall>r \<in> set (join_results s ?hits).
      \<exists>d. dict_get (id_to_doc_id s) (KInt (faiss_id r)) = Some d \<and>
          get_document (metadata_db s) d = Some (document r)"
    using join_results_joined by blast
  ultimately show ?thesis by (simp add: join_results_slots)
qed

theorem search_drops_unresolved_witness:
  "\<exists>rs. search flat_search (after_a\<lparr>id_to_doc_id := []\<rparr>) (Arr1 [1, 0, 0, 0]) 1 =
           (Inr rs, after_a\<lparr>id_to_doc_id := []\<rparr>) \<and>
        (\<forall>r \<in> set rs. \<exists>d.
            dict_get (id_to_doc_id (after_a\<lparr>id_to_doc_id := []\<rparr>)) (KInt (faiss_id r)) = Some d \<and>
            get_document (metadata_db (after_a\<lparr>id_to_doc_id := []\<rparr>)) d = Some (document r)) \<and>
        map faiss_id rs = [] \<and>
        map snd (flat_search index_a [1, 0, 0, 0] 1) = [0]"
proof -
  have "index (after_a\<lparr>id_to_doc_id := []\<rparr>) = Some index_a"
    and "expand_dims (Arr1 [1, 0, 0, 0]) = [1, 0, 0, 0] # []"
    and "list_all (\<lambda>r. length r = dim index_a) ([1, 0, 0, 0] # [])"
    by (simp_all add: after_a_state index_a_def)
  from search_drops_unresolved[OF this, of flat_search 1]
  show ?thesis
    by (auto simp: flat_search_a resolves_def dict_get_def ntotal_index_a)
qed

subsection \<open>Search changes nothing\<close>

text \<open>
  C10. \<^verbatim>\<open>search\<close> returns the state it was given: the index and its vector count, the
  slot-to-document mapping, the next slot, the metadata table and the files are the
  same after the call as before, whether it returns a list or raises.
\<close>

theorem search_mutates_nothing:
  "snd (search eng s qv k) = s"
  by (simp add: search_def split: option.splits sum.splits list.splits)

theorem search_mutates_nothing_witness:
  "snd (search flat_search after_a (Arr1 [1, 0, 0, 0]) 1) = after_a \<and>
   fst (search flat_search after_a (Arr1 [1, 0, 0, 0]) 1) =
     Inr [\<lparr>score = 0, distance = 0, faiss_id = 0, document = doc_a\<rparr>]"
  using search_mutates_nothing [of flat_search after_a "Arr1 [1, 0, 0, 0]" 1]
  by (simp add: search_def after_a_state index_search_def index_a_def ntotal_def
        flat_search_def l2_sqr_def dict_get_def get_document_def doc_a_def)

subsection \<open>Text search\<close>

lemma like_percent:
  "like (CHR ''%'' # ps) s \<longleftrightarrow> (\<exists>pre rest. s = pre @ rest \<and> like ps rest)"
proof (induction s)
  case Nil
  then show ?case by simp
next
  case (Cons c cs)
  have "like (CHR ''%'' # ps) (c # cs) \<longleftrightarrow> like ps (c # cs) \<or> like (CHR ''%'' # ps) cs"
    by simp
  also have "\<dots> \<longleftrightarrow> like ps (c # cs) \<or> (\<exists>pre rest. cs = pre @ rest \<and> like ps rest)"
    using Cons.IH by simp
  also have "\<dots> \<longleftrightarrow> (\<exists>pre rest. c # cs = pre @ rest \<and> like ps rest)"
    by (auto simp: Cons_eq_append_conv)
  finally show ?case .
qed

lemma like_literal:
  assumes "CHR ''%'' \<notin> set q" and "CHR ''_'' \<notin> set q"
  shows "like (q @ ps) s \<longleftrightarrow>
    (\<exists>mid rest. s = mid @ rest \<and> map ascii_upper mid = map ascii_upper q \<and> like ps rest)"
  using assms
proof (induction q arbitrary: s)
  case Nil
  then show ?case by simp
next
  case (Cons p q)
  show ?case
  proof (cases s)
    case Nil
    with Cons.prems show ?thesis by auto
  next
    case (Cons c cs)
    have "like ((p # q) @ ps) (c # cs) \<longleftrightarrow> ascii_upper p = ascii_upper c \<and> like (q @ ps) cs"
      using Cons.prems by auto
    also have "\<dots> \<longleftrightarrow> ascii_upper p = ascii_upper c \<and>
        (\<exists>mid rest. cs = mid @ rest \<and> map ascii_upper mid = map ascii_upper q \<and> like ps rest)"
      using Cons.IH Cons.prems by simp
    also have "\<dots> \<longleftrightarrow> (\<exists>mid rest. c # cs = mid @ rest \<and>
        map ascii_upper mid = map ascii_upper (p # q) \<and> like ps rest)"
      by (auto simp: Cons_eq_append_conv) (metis list.simps(9))
    finally show ?thesis using Cons by simp
  qed
qed

lemma like_tail: "like ''%'' s"
  by (induction s) auto

lemma contains_iff:
  "contains t q \<longleftrightarrow> (\<exists>pre post. t = pre @ q @ post)"
proof
  assume "contains t q"
  then obtain i where i: "take (length q) (drop i t) = q"
    unfolding contains_def list_ex_iff by blast
  have "t = take i t @ (take (length q) (drop i t) @ drop (length q) (drop i t))"
    by (simp only: append_take_drop_id)
  with i show "\<exists>pre post. t = pre @ q @ post" by metis
next
  assume "\<exists>pre post. t = pre @ q @ post"
  then obtain pre post where t: "t = pre @ q @ post" by blast
  then have "length pre \<le> length t" "take (length q) (drop (length pre) t) = q" by simp_all
  then show "contains t q"
    unfolding contains_def list_ex_iff by (intro bexI[of _ "length pre"]) auto
qed

lemma like_contains_nocase:
  assumes "CHR ''%'' \<notin> set q" and "CHR ''_'' \<notin> set q"
  shows "like (''%'' @ q @ ''%'') t \<longleftrightarrow> contains_nocase t q"
proof -
  have "like (''%'' @ q @ ''%'') t \<longleftrightarrow> (\<exists>pre rest. t = pre @ rest \<and> like (q @ ''%'') rest)"
    by (simp add: like_percent)
  also have "\<dots> \<longleftrightarrow> (\<exists>pre rest. t = pre @ rest \<and>
      (\<exists>mid post. rest = mid @ post \<and> map ascii_upper mid = map ascii_upper q))"
    by (simp add: like_literal[OF assms] like_tail)
  also have "\<dots> \<longleftrightarrow>
      (\<exists>pre mid post. t = pre @ mid @ post \<and> map ascii_upper mid = map ascii_upper q)"
    by blast
  also have "\<dots> \<longleftrightarrow> (\<exists>pre' post'. map ascii_upper t = pre' @ map ascii_upper q @ post')"
  proof
    assume "\<exists>pre mid post. t = pre @ mid @ post \<and> map ascii_upper mid = map ascii_upper q"
    then obtain pre mid post where "t = pre @ mid @ post" "map ascii_upper mid = map ascii_upper q"
      by blast
    then have "map ascii_upper t = map ascii_upper pre @ map ascii_upper q @ map ascii_upper post"
      by simp
    then show "\<exists>pre' post'. map ascii_upper t = pre' @ map ascii_upper q @ post'" by blast
  next
    assume "\<exists>pre' post'. map ascii_upper t = pre' @ map ascii_upper q @ post'"
    then obtain pre' post' where e: "map ascii_upper t = pre' @ map ascii_upper q @ post'"
      by blast
    then obtain pre r where pr: "t = pre @ r" "map ascii_upper pre = pre'"
        "map ascii_upper r = map ascii_upper q @ post'"
      by (metis map_eq_append_conv)
    then obtain mid post where "r = mid @ post" "map ascii_upper mid = map ascii_upper q"
      by (metis map_eq_append_conv)
    with pr show "\<exists>pre mid post. t = pre @ mid @ post \<and> map ascii_upper mid = map ascii_upper q"
      by blast
  qed
  finally show ?thesis by (simp only: contains_nocase_def contains_iff)
qed

lemma desc_sort_key:
  assumes "distinct (map f xs)"
  shows "sorted_wrt (\<lambda>a b. f b < (f a :: int)) (rev (sort_key f xs))"
proof -
  have "distinct (map f (sort_key f xs))" using assms by (simp add: distinct_map)
  moreover have "sorted (map f (sort_key f xs))" by simp
  ultimately have "sorted_wrt (<) (map f (sort_key f xs))"
    by (simp add: strict_sorted_iff)
  then have "sorted_wrt (\<lambda>a b. f a < f b) (sort_key f xs)"
    by (simp add: sorted_wrt_map)
  then show ?thesis by (simp add: sorted_wrt_rev)
qed

lemma max_rowid_ge: "r \<in> set rows \<Longrightarrow> doc_id r \<le> max_rowid rows"
proof -
  have "\<And>a. a \<le> fold max xs a \<and> (\<forall>x \<in> set xs. x \<le> fold max xs a)" for xs :: "int list"
  proof (induction xs)
    case Nil
    show ?case by simp
  next
    case (Cons x xs)
    from Cons[of "max x a"] show ?case by auto
  qed
  then show "r \<in> set rows \<Longrightarrow> doc_id r \<le> max_rowid rows"
    unfolding max_rowid_def by force
qed

text \<open>
  C9 (as the code has it). The rows \<^verbatim>\<open>search_documents\<close> returns are rows of the
  table whose snippet matches the SQL pattern \<^verbatim>\<open>%query%\<close>; when the query holds
  neither \<^verbatim>\<open>%\<close> nor \<^verbatim>\<open>_\<close>, that is: the snippet contains the query up to the case
  of ASCII letters. For a limit that is not negative there are at most limit rows, and
  they come in strictly descending document id, which is most recently inserted first,
  since \<^verbatim>\<open>add_document\<close> assigns an id above every id in the table.
\<close>

theorem search_documents_results:
  assumes "distinct (map doc_id (documents db))" and "0 \<le> limit"
  shows "set (search_documents db query limit) \<subseteq> set (documents db) \<and>
     (\<forall>r \<in> set (search_documents db query limit). like (''%'' @ query @ ''%'') (snippet r)) \<and>
     (CHR ''%'' \<notin> set query \<and> CHR ''_'' \<notin> set query \<longrightarrow>
        (\<forall>r \<in> set (search_documents db query limit). contains_nocase (snippet r) query)) \<and>
     int (length (search_documents db query limit)) \<le> limit \<and>
     sorted_wrt (\<lambda>a b. doc_id b < doc_id a) (search_documents db query limit) \<and>
     (\<forall>r \<in> set (documents db). doc_id r < fst (add_document db fp ft ct md sn))"
proof -
  let ?hits = "filter (\<lambda>r. like (''%'' @ query @ ''%'') (snippet r)) (documents db)"
  let ?all = "rev (sort_key doc_id ?hits)"
  have res: "search_documents db query limit = take (nat limit) ?all"
    using assms(2) by (simp add: search_documents_def sql_limit_def)
  have sub: "set (search_documents db query limit) \<subseteq> set ?hits"
    unfolding res using set_take_subset[of "nat limit" ?all] by simp
  have "distinct (map doc_id ?hits)"
    using assms(1) by (rule distinct_map_filter)
  then have "sorted_wrt (\<lambda>a b. doc_id b < doc_id a) ?all"
    by (rule desc_sort_key)
  then have srt: "sorted_wrt (\<lambda>a b. doc_id b < doc_id a) (search_documents db query limit)"
    unfolding res by (rule sorted_wrt_take)
  have len: "int (length (search_documents db query limit)) \<le> limit"
    unfolding res using assms(2) by simp
  have lk: "\<forall>r \<in> set (search_documents db query limit). like (''%'' @ query @ ''%'') (snippet r)"
    using sub by auto
  have newer: "\<forall>r \<in> set (documents db). doc_id r < fst (add_document db fp ft ct md sn)"
    using max_rowid_ge[of _ "documents db"] by (fastforce simp: add_document_def Let_def)
  have cn: "CHR ''%'' \<notin> set query \<and> CHR ''_'' \<notin> set query \<longrightarrow>
      (\<forall>r \<in> set (search_documents db query limit). contains_nocase (snippet r) query)"
    using lk like_contains_nocase by blast
  have "set (search_documents db query limit) \<subseteq> set (documents db)"
    using sub by auto
  with srt len lk newer cn show ?thesis by blast
qed

theorem search_documents_results_witness:
  "search_documents two_docs ''LPH'' 10 = [doc_a] \<and>
   contains_nocase (snippet doc_a) ''LPH'' \<and>
   search_documents two_docs ''a'' 10 = [doc_b, doc_a] \<and>
   search_documents two_docs ''a'' 1 = [doc_b] \<and>
   doc_id doc_b < fst (add_document two_docs ''c.txt'' ''txt'' ''text'' [] ''gamma'')"
proof -
  have d: "distinct (map doc_id (documents two_docs))" and l: "(0::int) \<le> 10"
    by (simp_all add: two_docs_def doc_a_def doc_b_def)
  have r1: "search_documents two_docs ''LPH'' 10 = [doc_a]"
    and r2: "search_documents two_docs ''a'' 10 = [doc_b, doc_a]"
    and r3: "search_documents two_docs ''a'' 1 = [doc_b]"
    by code_simp+
  from search_documents_results[OF d l, of "''LPH''" "''c.txt''" "''txt''" "''text''" "[]" "''gamma''"]
  have "contains_nocase (snippet doc_a) ''LPH''"
    and "doc_id doc_b < fst (add_document two_docs ''c.txt'' ''txt'' ''text'' [] ''gamma'')"
    unfolding r1 by (simp_all add: two_docs_def)
  with r1 r2 r3 show ?thesis by simp
qed

text \<open>
  The claim as stated fails: \<^verbatim>\<open>_\<close> in the query is a wildcard and letters match
  without regard to case, so a row is returned whose snippet does not contain the
  query.
\<close>

theorem search_documents_not_substring:
  "search_documents two_docs ''_et_'' 10 = [doc_b] \<and> \<not> contains (snippet doc_b) ''_et_'' \<and>
   search_documents two_docs ''ALPHA'' 10 = [doc_a] \<and> \<not> contains (snippet doc_a) ''ALPHA''"
  by code_simp

subsection \<open>Order and length of search results\<close>

lemma join_results_distances:
  "set (map distance (join_results s hits)) \<subseteq> set (map fst hits)"
  using join_results_joined[of _ s hits] by force

lemma join_results_sorted:
  "sorted (map fst hits) \<Longrightarrow> sorted (map distance (join_results s hits))"
proof (induction hits)
  case Nil
  then show ?case by simp
next
  case (Cons h rest)
  obtain dis idx where h: "h = (dis, idx)" by (cases h) auto
  from Cons.prems h have rest: "sorted (map fst rest)"
    and le: "\<forall>x \<in> set (map fst rest). dis \<le> x"
    by simp_all
  have "\<forall>x \<in> set (map distance (join_results s rest)). dis \<le> x"
    using le join_results_distances[of s rest] by blast
  with Cons.IH[OF rest] h show ?case by (auto split: option.splits)
qed

lemma filter_keeps_all:
  "length (filter P xs) = length xs \<longleftrightarrow> list_all P xs"
proof
  assume eq: "length (filter P xs) = length xs"
  show "list_all P xs"
  proof (rule ccontr)
    assume "\<not> list_all P xs"
    then obtain x where x: "x \<in> set xs" "\<not> P x" by (auto simp: list_all_iff)
    have "length (filter P xs) < length xs"
      using x by (rule length_filter_less[of x xs P])
    with eq show False by simp
  qed
next
  assume "list_all P xs"
  then show "length (filter P xs) = length xs" by (simp add: list_all_iff)
qed

lemma join_results_length:
  "length (join_results s hits) = length (filter (resolves s) (map snd hits))"
  using arg_cong[OF join_results_slots, of length s hits] by simp

text \<open>
  C7 (as the code has it). On a missing or empty index \<^verbatim>\<open>search\<close> returns the empty
  list for every query. On an index of the query's dimension, with an engine that
  returns its hits in ascending distance and min(k, total) of them, \<^verbatim>\<open>search\<close>
  returns a list in ascending distance whose length is at most min(k, total); the
  length is min(k, total) exactly when every slot the engine returned resolves to a
  document.
\<close>

theorem search_sorted_bounded:
  "((index s = None \<or> (\<exists>ix. index s = Some ix \<and> ntotal ix = 0)) \<longrightarrow>
      search eng s qv k = (Inr [], s)) \<and>
   (index s = Some ix \<and> expand_dims qv = [q] \<and> length q = dim ix \<and>
    sorted (map fst (eng ix q (min k (ntotal ix)))) \<and>
    length (eng ix q (min k (ntotal ix))) = nat (min k (ntotal ix)) \<longrightarrow>
      (\<exists>rs. search eng s qv k = (Inr rs, s) \<and>
            sorted (map distance rs) \<and>
            length rs \<le> nat (min k (ntotal ix)) \<and>
            (length rs = nat (min k (ntotal ix)) \<longleftrightarrow>
               list_all (resolves s) (map snd (eng ix q (min k (ntotal ix)))))))"
proof (intro conjI impI)
  assume "index s = None \<or> (\<exists>ix. index s = Some ix \<and> ntotal ix = 0)"
  then show "search eng s qv k = (Inr [], s)"
    by (auto simp: search_def)
next
  let ?hits = "eng ix q (min k (ntotal ix))"
  assume a: "index s = Some ix \<and> expand_dims qv = [q] \<and> length q = dim ix \<and>
    sorted (map fst ?hits) \<and> length ?hits = nat (min k (ntotal ix))"
  show "\<exists>rs. search eng s qv k = (Inr rs, s) \<and> sorted (map distance rs) \<and>
            length rs \<le> nat (min k (ntotal ix)) \<and>
            (length rs = nat (min k (ntotal ix)) \<longleftrightarrow> list_all (resolves s) (map snd ?hits))"
  proof (cases "ntotal ix = 0")
    case True
    with a have "?hits = []" by simp
    with a True show ?thesis by (simp add: search_def)
  next
    case False
    have s: "search eng s qv k = (Inr (join_results s ?hits), s)"
      using a False by (simp add: search_def index_search_def)
    have "length (join_results s ?hits) \<le> length ?hits"
      by (simp add: join_results_length)
    moreover have "length (join_results s ?hits) = length ?hits \<longleftrightarrow>
        list_all (resolves s) (map snd ?hits)"
      using filter_keeps_all[of "resolves s" "map snd ?hits"] by (simp add: join_results_length)
    ultimately show ?thesis
      using a s join_results_sorted[of ?hits s] by auto
  qed
qed

lemma flat_search_a_total: "flat_search index_a [1, 0, 0, 0] (min 1 (ntotal index_a)) = [(0, 0)]"
  by (simp add: ntotal_index_a flat_search_a)

theorem search_sorted_bounded_witness:
  "\<exists>rs. search flat_search after_a (Arr1 [1, 0, 0, 0]) 1 = (Inr rs, after_a) \<and>
        sorted (map distance rs) \<and> length rs = 1 \<and> resolves after_a 0"
proof -
  have "index after_a = Some index_a \<and> expand_dims (Arr1 [1, 0, 0, 0]) = [[1, 0, 0, 0]] \<and>
      length [1, 0, 0, (0::real)] = dim index_a \<and>
      sorted (map fst (flat_search index_a [1, 0, 0, 0] (min 1 (ntotal index_a)))) \<and>
      length (flat_search index_a [1, 0, 0, 0] (min 1 (ntotal index_a))) =
        nat (min 1 (ntotal index_a))"
    unfolding flat_search_a_total by (simp add: after_a_state index_a_def ntotal_def)
  moreover have "resolves after_a 0"
    by (simp add: resolves_def after_a_state dict_get_def get_document_def doc_a_def)
  ultimately show ?thesis
    using search_sorted_bounded[of after_a flat_search "Arr1 [1, 0, 0, 0]" 1 index_a "[1, 0, 0, 0]"]
    unfolding flat_search_a_total by (auto simp: ntotal_index_a)
qed

text \<open>
  The claim as stated fails: started on an index file of one vector with no mapping
  file, the index reports one vector and a search with k = 1 returns no result, not
  min(1, 1) = 1 results.
\<close>

theorem search_shorter_than_k:
  "fst (search flat_search (FaissIndex_init index_only_files empty_db 4) (Arr1 [1, 0, 0, 0]) 1) =
     Inr [] \<and>
   min 1 (total_vectors (get_stats (FaissIndex_init index_only_files empty_db 4))) = 1"
  by (simp add: FaissIndex_init_def load_or_create_index_def load_index_def print_def
        index_only_files_def search_def index_search_def ntotal_index_a flat_search_a
        get_stats_def dict_get_def)
     (simp add: index_a_def)

subsection \<open>How failures leave add\_vector and search\<close>

lemma add_vector_outcome:
  assumes "\<not> lock s"
  shows "fst (add_vector s v fp ft ct md sn) =
     (case index s of
        None \<Rightarrow> Inl RuntimeError
      | Some ix \<Rightarrow>
          if \<not> rows_fit ix (expand_dims v) then Inl DimensionMismatch
          else if \<not> writable (disk s) then Inl OSError
          else Inr (next_faiss_id s))"
  using assms
  by (auto simp: add_vector_def with_lock_def add_vector_body_def add_document_def Let_def
        index_add_def save_mapping_def rows_fit_def split: option.splits prod.splits)

lemma search_outcome:
  "fst (search eng s qv k) =
     (case index s of
        None \<Rightarrow> Inr []
      | Some ix \<Rightarrow>
          if ntotal ix = 0 then Inr []
          else if \<not> rows_fit ix (expand_dims qv) then Inl DimensionMismatch
          else (case expand_dims qv of
                  [] \<Rightarrow> Inl IndexError
                | q # qs \<Rightarrow> Inr (join_results s (eng ix q (min k (ntotal ix))))))"
  by (auto simp: search_def index_search_def rows_fit_def split: option.splits list.splits)

text \<open>
  C6 (as the code has it). \<^verbatim>\<open>add_vector\<close> has no failure value: it returns a slot,
  and it does so exactly when the index exists, the rows have its dimension and the
  files can be written; otherwise it raises (RuntimeError, the engine's dimension
  error, OSError, in this order). \<^verbatim>\<open>search\<close> returns the empty list on a missing or
  empty index; on a non-empty index it raises exactly when the engine rejects the
  query (a row of another dimension, or no row).
\<close>

theorem failures_are_raised:
  "(\<not> lock s \<longrightarrow>
      ((\<exists>slot. fst (add_vector s v fp ft ct md sn) = Inr slot) \<longleftrightarrow>
         (\<exists>ix. index s = Some ix \<and> rows_fit ix (expand_dims v)) \<and> writable (disk s)) \<and>
      (index s = None \<longrightarrow> fst (add_vector s v fp ft ct md sn) = Inl RuntimeError) \<and>
      (\<forall>ix. index s = Some ix \<and> \<not> rows_fit ix (expand_dims v) \<longrightarrow>
         fst (add_vector s v fp ft ct md sn) = Inl DimensionMismatch) \<and>
      (\<forall>ix. index s = Some ix \<and> rows_fit ix (expand_dims v) \<and> \<not> writable (disk s) \<longrightarrow>
         fst (add_vector s v fp ft ct md sn) = Inl OSError)) \<and>
   ((index s = None \<or> (\<exists>ix. index s = Some ix \<and> ntotal ix = 0)) \<longrightarrow>
      fst (search eng s qv k) = Inr []) \<and>
   ((\<exists>e. fst (search eng s qv k) = Inl e) \<longleftrightarrow>
      (\<exists>ix. index s = Some ix \<and> ntotal ix \<noteq> 0 \<and>
         (\<not> rows_fit ix (expand_dims qv) \<or> expand_dims qv = [])))"
proof -
  have add: "\<not> lock s \<Longrightarrow> fst (add_vector s v fp ft ct md sn) =
     (case index s of
        None \<Rightarrow> Inl RuntimeError
      | Some ix \<Rightarrow>
          if \<not> rows_fit ix (expand_dims v) then Inl DimensionMismatch
          else if \<not> writable (disk s) then Inl OSError
          else Inr (next_faiss_id s))"
    by (rule add_vector_outcome)
  show ?thesis
    unfolding search_outcome
    by (cases "lock s"; cases "index s"; cases "expand_dims qv")
       (auto simp: add)
qed

theorem failures_are_raised_witness:
  "fst (add_vector read_only (Arr1 [1, 0, 0, 0]) ''a.txt'' ''txt'' ''text'' [] ''alpha'') =
     Inl OSError \<and>
   (\<exists>slot. fst (add_vector fresh (Arr1 [1, 0, 0, 0]) ''a.txt'' ''txt'' ''text'' [] ''alpha'') =
     Inr slot) \<and>
   fst (search flat_search fresh (Arr1 [1, 0]) 1) = Inr []"
proof -
  have f: "\<not> lock fresh" "index fresh = Some (IndexHNSWFlat 4)" "writable (disk fresh)"
    "rows_fit (IndexHNSWFlat 4) (expand_dims (Arr1 [1, 0, 0, 0]))"
    "ntotal (IndexHNSWFlat 4) = 0"
    unfolding fresh_def fresh_state
    by (simp_all add: no_files_def rows_fit_def IndexHNSWFlat_def ntotal_def)
  have r: "\<not> lock read_only" "index read_only = Some (IndexHNSWFlat 4)"
    "\<not> writable (disk read_only)"
    unfolding read_only_def fresh_def fresh_state by simp_all
  from failures_are_raised[of read_only "Arr1 [1, 0, 0, 0]" "''a.txt''" "''txt''" "''text''"
      "[]" "''alpha''" flat_search "Arr1 [1, 0]" 1] r f(4)
  have 1: "fst (add_vector read_only (Arr1 [1, 0, 0, 0]) ''a.txt'' ''txt'' ''text'' []
      ''alpha'') = Inl OSError"
    by blast
  from failures_are_raised[of fresh "Arr1 [1, 0, 0, 0]" "''a.txt''" "''txt''" "''text''"
      "[]" "''alpha''" flat_search "Arr1 [1, 0]" 1] f
  have 2: "\<exists>slot. fst (add_vector fresh (Arr1 [1, 0, 0, 0]) ''a.txt'' ''txt'' ''text'' []
      ''alpha'') = Inr slot"
    and 3: "fst (search flat_search fresh (Arr1 [1, 0]) 1) = Inr []"
    by blast+
  from 1 2 3 show ?thesis by blast
qed

text \<open>
  The claim as stated fails: on a disk that cannot be written \<^verbatim>\<open>add_vector\<close> raises
  OSError, and on a non-empty index a query of the wrong length makes \<^verbatim>\<open>search\<close>
  raise the engine's dimension error instead of returning an empty list.
\<close>

theorem failures_escape_as_exceptions:
  "fst (add_vector read_only (Arr1 [1, 0, 0, 0]) ''a.txt'' ''txt'' ''text'' [] ''alpha'') =
     Inl OSError \<and>
   fst (search flat_search after_a (Arr1 [1, 0]) 1) = Inl DimensionMismatch"
proof -
  have "fst (add_vector read_only (Arr1 [1, 0, 0, 0]) ''a.txt'' ''txt'' ''text'' [] ''alpha'') =
     Inl OSError"
    unfolding read_only_def fresh_def fresh_state
    by (simp add: add_vector_def with_lock_def add_vector_body_def add_document_def
          index_add_def IndexHNSWFlat_def Let_def save_mapping_def no_files_def)
  moreover have "fst (search flat_search after_a (Arr1 [1, 0]) 1) = Inl DimensionMismatch"
    by (simp add: search_def after_a_state index_search_def ntotal_index_a)
       (simp add: index_a_def)
  ultimately show ?thesis by simp
qed

subsection \<open>Loading the persisted files\<close>

lemma init_no_index_file:
  assumes "index_file fs = None"
  shows "FaissIndex_init fs db d =
     \<lparr>metadata_db = db, embedding_dim = d, index = Some (IndexHNSWFlat d), id_to_doc_id = [],
      next_faiss_id = 0, lock = False, disk = fs, printed = [CreatedNew d]\<rparr>"
  using assms
  by (simp add: FaissIndex_init_def load_or_create_index_def create_new_index_def print_def)

lemma init_corrupt_index_file:
  assumes "index_file fs = Some CorruptIndex"
  shows "FaissIndex_init fs db d =
     \<lparr>metadata_db = db, embedding_dim = d, index = Some (IndexHNSWFlat d), id_to_doc_id = [],
      next_faiss_id = 0, lock = False, disk = fs,
      printed = [ErrorLoading ReadIndexError, CreatingNew, CreatedNew d]\<rparr>"
  using assms
  by (simp add: FaissIndex_init_def load_or_create_index_def load_index_def
        create_new_index_def print_def)

lemma init_serialized_index_file:
  assumes "index_file fs = Some (Serialized ix)"
  shows "FaissIndex_init fs db d =
     (case mapping_file fs of
        None \<Rightarrow>
          \<lparr>metadata_db = db, embedding_dim = d, index = Some ix, id_to_doc_id = [],
           next_faiss_id = 0, lock = False, disk = fs,
           printed = [LoadedExisting (ntotal ix)]\<rparr>
      | Some t \<Rightarrow>
          (case json_load t of
             Inl e \<Rightarrow>
               \<lparr>metadata_db = db, embedding_dim = d, index = Some (IndexHNSWFlat d),
                id_to_doc_id = [], next_faiss_id = 0, lock = False, disk = fs,
                printed = [ErrorLoading e, CreatingNew, CreatedNew d]\<rparr>
           | Inr m \<Rightarrow>
               (case next_id_of m of
                  Inl e \<Rightarrow>
                    \<lparr>metadata_db = db, embedding_dim = d, index = Some (IndexHNSWFlat d),
                     id_to_doc_id = m, next_faiss_id = 0, lock = False, disk = fs,
                     printed = [ErrorLoading e, CreatingNew, CreatedNew d]\<rparr>
                | Inr n \<Rightarrow>
                    \<lparr>metadata_db = db, embedding_dim = d, index = Some ix, id_to_doc_id = m,
                     next_faiss_id = n, lock = False, disk = fs,
                     printed = [LoadedExisting (ntotal ix)]\<rparr>)))"
  using assms
  by (simp add: FaissIndex_init_def load_or_create_index_def load_index_def
        create_new_index_def print_def Let_def
        split: option.splits sum.splits)

lemma load_shapes:
  "(printed (FaissIndex_init fs db d) = [CreatedNew d] \<longleftrightarrow> index_file fs = None) \<and>
   (index_file fs = None \<longrightarrow>
        index (FaissIndex_init fs db d) = Some (IndexHNSWFlat d) \<and>
        id_to_doc_id (FaissIndex_init fs db d) = [] \<and>
        next_faiss_id (FaissIndex_init fs db d) = 0) \<and>
   (printed (FaissIndex_init fs db d) = [CreatedNew d] \<or>
    (\<exists>ix'. index_file fs = Some (Serialized ix') \<and>
           index (FaissIndex_init fs db d) = Some ix' \<and>
           printed (FaissIndex_init fs db d) = [LoadedExisting (ntotal ix')]) \<or>
    (\<exists>e. index_file fs \<noteq> None \<and>
         index (FaissIndex_init fs db d) = Some (IndexHNSWFlat d) \<and>
         next_faiss_id (FaissIndex_init fs db d) = 0 \<and>
         printed (FaissIndex_init fs db d) = [ErrorLoading e, CreatingNew, CreatedNew d])) \<and>
   (\<forall>e. printed (FaissIndex_init fs db d) = [ErrorLoading e, CreatingNew, CreatedNew d] \<longleftrightarrow>
        (index_file fs = Some CorruptIndex \<and> e = ReadIndexError) \<or>
        (\<exists>ix' t. index_file fs = Some (Serialized ix') \<and> mapping_file fs = Some t \<and>
            (json_load t = Inl e \<or> (\<exists>m. json_load t = Inr m \<and> next_id_of m = Inl e))))"
proof (cases "index_file fs")
  case None
  then show ?thesis by (simp add: init_no_index_file)
next
  case (Some blob)
  show ?thesis
  proof (cases blob)
    case CorruptIndex
    with Some show ?thesis by (auto simp: init_corrupt_index_file)
  next
    case (Serialized ix')
    with Some have f: "index_file fs = Some (Serialized ix')" by simp
    show ?thesis
      unfolding init_serialized_index_file[OF f]
      using f by (auto split: option.splits sum.splits)
  qed
qed

lemma load_ignores_vectors:
  "id_to_doc_id (FaissIndex_init (fs\<lparr>index_file := Some (Serialized ix1)\<rparr>) db d) =
     id_to_doc_id (FaissIndex_init (fs\<lparr>index_file := Some (Serialized ix2)\<rparr>) db d) \<and>
   next_faiss_id (FaissIndex_init (fs\<lparr>index_file := Some (Serialized ix1)\<rparr>) db d) =
     next_faiss_id (FaissIndex_init (fs\<lparr>index_file := Some (Serialized ix2)\<rparr>) db d) \<and>
   ((index (FaissIndex_init (fs\<lparr>index_file := Some (Serialized ix1)\<rparr>) db d) = Some ix1 \<and>
     printed (FaissIndex_init (fs\<lparr>index_file := Some (Serialized ix1)\<rparr>) db d) =
       [LoadedExisting (ntotal ix1)] \<and>
     index (FaissIndex_init (fs\<lparr>index_file := Some (Serialized ix2)\<rparr>) db d) = Some ix2 \<and>
     printed (FaissIndex_init (fs\<lparr>index_file := Some (Serialized ix2)\<rparr>) db d) =
       [LoadedExisting (ntotal ix2)]) \<or>
    (\<exists>e. index (FaissIndex_init (fs\<lparr>index_file := Some (Serialized ix1)\<rparr>) db d) =
           Some (IndexHNSWFlat d) \<and>
         printed (FaissIndex_init (fs\<lparr>index_file := Some (Serialized ix1)\<rparr>) db d) =
           [ErrorLoading e, CreatingNew, CreatedNew d] \<and>
         index (FaissIndex_init (fs\<lparr>index_file := Some (Serialized ix2)\<rparr>) db d) =
           Some (IndexHNSWFlat d) \<and>
         printed (FaissIndex_init (fs\<lparr>index_file := Some (Serialized ix2)\<rparr>) db d) =
           [ErrorLoading e, CreatingNew, CreatedNew d]))"
proof -
  have 1: "index_file (fs\<lparr>index_file := Some (Serialized ix1)\<rparr>) = Some (Serialized ix1)"
    and 2: "index_file (fs\<lparr>index_file := Some (Serialized ix2)\<rparr>) = Some (Serialized ix2)"
    by simp_all
  show ?thesis
    unfolding init_serialized_index_file[OF 1] init_serialized_index_file[OF 2]
    by (auto split: option.splits sum.splits)
qed

text \<open>
  C5 (as the code has it). Loading compares nothing: with an index file that
  deserialises and a mapping file that is absent or holds the empty object, the loaded
  index is kept whatever its vector count, the mapping is empty, the next slot is 0 and
  the only line printed is the loaded count. Only \<^verbatim>\<open>Created new ...\<close> is printed
  exactly when the index file is absent. With the index file present the loaded index
  is kept, or an exception was raised while loading and a new index replaces it; the
  exception comes from reading the index file, from parsing the mapping file or from
  computing the next slot of the loaded mapping, never from the index's vectors: the
  mapping taken, the next slot, and whether and with which error the load fails are
  the same for any two index files that deserialise. No line printed reports a
  divergence.
\<close>

theorem load_compares_nothing:
  "(index_file fs = Some (Serialized ix) \<and>
      (mapping_file fs = None \<or> mapping_file fs = Some (JsonObject [])) \<longrightarrow>
        index (FaissIndex_init fs db d) = Some ix \<and>
        id_to_doc_id (FaissIndex_init fs db d) = [] \<and>
        next_faiss_id (FaissIndex_init fs db d) = 0 \<and>
        printed (FaissIndex_init fs db d) = [LoadedExisting (ntotal ix)]) \<and>
   (printed (FaissIndex_init fs db d) = [CreatedNew d] \<longleftrightarrow> index_file fs = None) \<and>
   (index_file fs = None \<longrightarrow>
        index (FaissIndex_init fs db d) = Some (IndexHNSWFlat d) \<and>
        id_to_doc_id (FaissIndex_init fs db d) = [] \<and>
        next_faiss_id (FaissIndex_init fs db d) = 0) \<and>
   (printed (FaissIndex_init fs db d) = [CreatedNew d] \<or>
    (\<exists>ix'. index_file fs = Some (Serialized ix') \<and>
           index (FaissIndex_init fs db d) = Some ix' \<and>
           printed (FaissIndex_init fs db d) = [LoadedExisting (ntotal ix')]) \<or>
    (\<exists>e. index_file fs \<noteq> None \<and>
         index (FaissIndex_init fs db d) = Some (IndexHNSWFlat d) \<and>
         next_faiss_id (FaissIndex_init fs db d) = 0 \<and>
         printed (FaissIndex_init fs db d) = [ErrorLoading e, CreatingNew, CreatedNew d])) \<and>
   (\<forall>e. printed (FaissIndex_init fs db d) = [ErrorLoading e, CreatingNew, CreatedNew d] \<longleftrightarrow>
        (index_file fs = Some CorruptIndex \<and> e = ReadIndexError) \<or>
        (\<exists>ix' t. index_file fs = Some (Serialized ix') \<and> mapping_file fs = Some t \<and>
            (json_load t = Inl e \<or> (\<exists>m. json_load t = Inr m \<and> next_id_of m = Inl e)))) \<and>
   (\<forall>ix1 ix2.
      id_to_doc_id (FaissIndex_init (fs\<lparr>index_file := Some (Serialized ix1)\<rparr>) db d) =
        id_to_doc_id (FaissIndex_init (fs\<lparr>index_file := Some (Serialized ix2)\<rparr>) db d) \<and>
      next_faiss_id (FaissIndex_init (fs\<lparr>index_file := Some (Serialized ix1)\<rparr>) db d) =
        next_faiss_id (FaissIndex_init (fs\<lparr>index_file := Some (Serialized ix2)\<rparr>) db d) \<and>
      ((index (FaissIndex_init (fs\<lparr>index_file := Some (Serialized ix1)\<rparr>) db d) = Some ix1 \<and>
        printed (FaissIndex_init (fs\<lparr>index_file := Some (Serialized ix1)\<rparr>) db d) =
          [LoadedExisting (ntotal ix1)] \<and>
        index (FaissIndex_init (fs\<lparr>index_file := Some (Serialized ix2)\<rparr>) db d) = Some ix2 \<and>
        printed (FaissIndex_init (fs\<lparr>index_file := Some (Serialized ix2)\<rparr>) db d) =
          [LoadedExisting (ntotal ix2)]) \<or>
       (\<exists>e. index (FaissIndex_init (fs\<lparr>index_file := Some (Serialized ix1)\<rparr>) db d) =
              Some (IndexHNSWFlat d) \<and>
            printed (FaissIndex_init (fs\<lparr>index_file := Some (Serialized ix1)\<rparr>) db d) =
              [ErrorLoading e, CreatingNew, CreatedNew d] \<and>
            index (FaissIndex_init (fs\<lparr>index_file := Some (Serialized ix2)\<rparr>) db d) =
              Some (IndexHNSWFlat d) \<and>
            printed (FaissIndex_init (fs\<lparr>index_file := Some (Serialized ix2)\<rparr>) db d) =
              [ErrorLoading e, CreatingNew, CreatedNew d])))"
proof -
  have kept: "index_file fs = Some (Serialized ix) \<and>
      (mapping_file fs = None \<or> mapping_file fs = Some (JsonObject [])) \<longrightarrow>
        index (FaissIndex_init fs db d) = Some ix \<and>
        id_to_doc_id (FaissIndex_init fs db d) = [] \<and>
        next_faiss_id (FaissIndex_init fs db d) = 0 \<and>
        printed (FaissIndex_init fs db d) = [LoadedExisting (ntotal ix)]"
    by (auto simp: init_serialized_index_file json_load_def next_id_of_def)
  from kept load_shapes[where fs = fs and db = db and d = d]
    load_ignores_vectors[where fs = fs and db = db and d = d]
  show ?thesis by blast
qed

theorem load_compares_nothing_witness:
  "index (FaissIndex_init index_only_files two_docs 4) = Some index_a \<and>
   id_to_doc_id (FaissIndex_init index_only_files two_docs 4) = [] \<and>
   next_faiss_id (FaissIndex_init index_only_files two_docs 4) = 0 \<and>
   printed (FaissIndex_init index_only_files two_docs 4) = [LoadedExisting 1] \<and>
   printed (FaissIndex_init no_files two_docs 4) = [CreatedNew 4]"
proof -
  have "index_file index_only_files = Some (Serialized index_a) \<and>
      (mapping_file index_only_files = None \<or>
       mapping_file index_only_files = Some (JsonObject []))"
    by (simp add: index_only_files_def)
  moreover have "index_file no_files = None" by (simp add: no_files_def)
  ultimately show ?thesis
    using load_compares_nothing[of index_only_files index_a two_docs 4]
      load_compares_nothing[of no_files index_a two_docs 4]
    by (simp add: ntotal_index_a)
qed

text \<open>
  The claim as stated fails: with an index file of one vector, an empty persisted
  mapping (no key 0) is accepted without a word and the loaded index is kept; a
  persisted mapping whose only key is 5 stays in \<^verbatim>\<open>id_to_doc_id\<close>, and the lines
  printed report a TypeError, not a divergence.
\<close>

theorem load_accepts_inconsistent_mapping:
  "index (FaissIndex_init empty_mapping_files two_docs 4) = Some index_a \<and>
   ntotal index_a = 1 \<and>
   id_to_doc_id (FaissIndex_init empty_mapping_files two_docs 4) = [] \<and>
   printed (FaissIndex_init empty_mapping_files two_docs 4) = [LoadedExisting 1] \<and>
   id_to_doc_id (FaissIndex_init stale_mapping_files two_docs 4) = [(KStr ''5'', 7)] \<and>
   printed (FaissIndex_init stale_mapping_files two_docs 4) =
     [ErrorLoading TypeError, CreatingNew, CreatedNew 4]"
  by (simp add: FaissIndex_init_def load_or_create_index_def load_index_def
        create_new_index_def print_def json_load_def next_id_of_def Let_def
        empty_mapping_files_def stale_mapping_files_def ntotal_index_a)

subsection \<open>Save, then start again on the same files\<close>

lemma dict_set_not_empty: "dict_set k v d \<noteq> []"
  by (cases d) (auto split: if_splits)

lemma dict_set_str_keys:
  "\<forall>k \<in> fst ` set d. \<exists>s. k = KStr s \<Longrightarrow>
     \<forall>k \<in> fst ` set (dict_set (KStr a) v d). \<exists>s. k = KStr s"
  by (induction d) (force split: if_splits)+

lemma load_str_keys:
  "\<forall>k \<in> fst ` set acc. \<exists>s. k = KStr s \<Longrightarrow>
     \<forall>k \<in> fst ` set (fold (\<lambda>(k, v) d. dict_set (KStr k) v d) kvs acc). \<exists>s. k = KStr s"
proof (induction kvs arbitrary: acc)
  case Nil
  then show ?case by simp
next
  case (Cons kv kvs)
  obtain a v where kv: "kv = (a, v)" by (cases kv) auto
  from Cons.prems have "\<forall>k \<in> fst ` set (dict_set (KStr a) v acc). \<exists>s. k = KStr s"
    by (rule dict_set_str_keys)
  from Cons.IH[OF this] kv show ?case by simp
qed

lemma load_not_empty:
  "kvs \<noteq> [] \<or> acc \<noteq> [] \<Longrightarrow> fold (\<lambda>(k, v) d. dict_set (KStr k) v d) kvs acc \<noteq> []"
proof (induction kvs arbitrary: acc)
  case Nil
  then show ?case by simp
next
  case (Cons kv kvs)
  obtain a v where kv: "kv = (a, v)" by (cases kv) auto
  have "dict_set (KStr a) v acc \<noteq> []" by (rule dict_set_not_empty)
  with Cons.IH[of "dict_set (KStr a) v acc"] kv show ?case by simp
qed

lemma py_max_str:
  "\<forall>k \<in> set ks. \<exists>s. k = KStr s \<Longrightarrow> \<exists>m. py_max_from (KStr a) ks = Inr (KStr m)"
proof (induction ks arbitrary: a)
  case Nil
  then show ?case by simp
next
  case (Cons k ks)
  from Cons.prems obtain b where k: "k = KStr b" by auto
  from Cons.prems have rest: "\<forall>k \<in> set ks. \<exists>s. k = KStr s" by simp
  show ?case
    using Cons.IH[OF rest, of a] Cons.IH[OF rest, of b] k by simp
qed

lemma next_id_of_str_keys:
  assumes "d \<noteq> []" and "\<forall>k \<in> fst ` set d. \<exists>s. k = KStr s"
  shows "next_id_of d = Inl TypeError"
proof -
  from assms(1) obtain kv rest where d: "d = kv # rest" by (cases d) auto
  with assms(2) obtain a where a: "fst kv = KStr a" by auto
  from assms(2) d have "\<forall>k \<in> set (map fst rest). \<exists>s. k = KStr s" by simp
  from py_max_str[OF this, of a] obtain m where "py_max_from (KStr a) (map fst rest) = Inr (KStr m)"
    by blast
  with d a show ?thesis by (simp add: next_id_of_def)
qed

lemma dumped_mapping_raises:
  assumes "d \<noteq> []"
  shows "\<exists>d'. json_load (json_dump d) = Inr d' \<and> next_id_of d' = Inl TypeError"
proof -
  let ?kvs = "map (\<lambda>(k, v). (key_str k, v)) d"
  let ?d' = "fold (\<lambda>(k, v) d. dict_set (KStr k) v d) ?kvs []"
  have "?kvs \<noteq> []" using assms by simp
  then have ne: "?d' \<noteq> []" using load_not_empty[of ?kvs "[]"] by blast
  have "\<forall>k \<in> fst ` set ?d'. \<exists>s. k = KStr s"
    by (rule load_str_keys) simp
  with ne have "next_id_of ?d' = Inl TypeError" by (rule next_id_of_str_keys)
  then show ?thesis by (simp add: json_dump_def json_load_def)
qed

text \<open>
  C2 (what the code does). From any unlocked state with an index, a non-empty mapping
  and a writable disk, \<^verbatim>\<open>save\<close> succeeds and the saved state reports the index's
  vector count; a new \<^verbatim>\<open>FaissIndex\<close> on the files just written reads the mapping
  back with str keys, so \<^verbatim>\<open>max(keys) + 1\<close> raises TypeError inside the \<^verbatim>\<open>try\<close>,
  and the loaded index is replaced by a new empty one: it reports 0 vectors and
  every search on it returns the empty list.
\<close>

theorem reload_after_save_is_empty:
  assumes "index s = Some ix" and "id_to_doc_id s \<noteq> []" and "\<not> lock s"
    and "writable (disk s)" and "save s = (r, s')"
  shows "r = Inr () \<and>
         total_vectors (get_stats s') = ntotal ix \<and>
         total_vectors (get_stats (FaissIndex_init (disk s') (metadata_db s') (embedding_dim s'))) = 0 \<and>
         index (FaissIndex_init (disk s') (metadata_db s') (embedding_dim s')) =
           Some (IndexHNSWFlat (embedding_dim s')) \<and>
         next_faiss_id (FaissIndex_init (disk s') (metadata_db s') (embedding_dim s')) = 0 \<and>
         printed (FaissIndex_init (disk s') (metadata_db s') (embedding_dim s')) =
           [ErrorLoading TypeError, CreatingNew, CreatedNew (embedding_dim s')] \<and>
         fst (search eng (FaissIndex_init (disk s') (metadata_db s') (embedding_dim s')) qv k) =
           Inr []"
proof -
  from assms have r: "r = Inr ()"
    and ix': "index s' = Some ix"
    and files: "index_file (disk s') = Some (Serialized ix)"
      "mapping_file (disk s') = Some (json_dump (id_to_doc_id s))"
    by (auto simp: save_def with_lock_def save_body_def save_mapping_def print_def Let_def
          split: prod.splits)
  from dumped_mapping_raises[OF assms(2)] obtain d' where
    d': "json_load (json_dump (id_to_doc_id s)) = Inr d'" "next_id_of d' = Inl TypeError"
    by blast
  show ?thesis
    using r ix' files d'
    by (simp add: get_stats_def FaissIndex_init_def load_or_create_index_def load_index_def
          create_new_index_def print_def Let_def IndexHNSWFlat_def ntotal_def search_def)
qed

theorem reload_after_save_is_empty_witness:
  "fst (save after_a) = Inr () \<and>
   total_vectors (get_stats (snd (save after_a))) = 1 \<and>
   total_vectors (get_stats (FaissIndex_init (disk (snd (save after_a)))
      (metadata_db (snd (save after_a))) (embedding_dim (snd (save after_a))))) = 0 \<and>
   fst (search flat_search (FaissIndex_init (disk (snd (save after_a)))
      (metadata_db (snd (save after_a))) (embedding_dim (snd (save after_a))))
      (Arr1 [1, 0, 0, 0]) 1) = Inr [] \<and>
   fst (search flat_search after_a (Arr1 [1, 0, 0, 0]) 1) =
     Inr [\<lparr>score = 0, distance = 0, faiss_id = 0, document = doc_a\<rparr>]"
proof -
  have "index after_a = Some index_a" "id_to_doc_id after_a \<noteq> []" "\<not> lock after_a"
    "writable (disk after_a)" "save after_a = (fst (save after_a), snd (save after_a))"
    by (simp_all add: after_a_state)
  from reload_after_save_is_empty[OF this, of flat_search "Arr1 [1, 0, 0, 0]" 1]
  have "fst (save after_a) = Inr () \<and>
      total_vectors (get_stats (snd (save after_a))) = 1 \<and>
      total_vectors (get_stats (FaissIndex_init (disk (snd (save after_a)))
        (metadata_db (snd (save after_a))) (embedding_dim (snd (save after_a))))) = 0 \<and>
      fst (search flat_search (FaissIndex_init (disk (snd (save after_a)))
        (metadata_db (snd (save after_a))) (embedding_dim (snd (save after_a))))
        (Arr1 [1, 0, 0, 0]) 1) = Inr []"
    by (simp add: ntotal_index_a)
  moreover have "fst (search flat_search after_a (Arr1 [1, 0, 0, 0]) 1) =
      Inr [\<lparr>score = 0, distance = 0, faiss_id = 0, document = doc_a\<rparr>]"
    by (simp add: search_def after_a_state index_search_def index_a_def ntotal_def
          flat_search_def l2_sqr_def dict_get_def get_document_def doc_a_def)
  ultimately show ?thesis by blast
qed

subsection \<open>The lock\<close>

lemma add_vector_body_split:
  "add_vector_body s v fp ft ct md sn =
     (case add_vector_until_indexed s v fp ft ct md sn of
        (Inl e, s1) \<Rightarrow> (Inl e, s1)
      | (Inr doc, s2) \<Rightarrow> add_vector_record s2 doc)"
  by (simp add: add_vector_body_def add_vector_until_indexed_def add_vector_record_def Let_def
        split: option.splits prod.splits sum.splits)

lemma join_results_lock:
  "join_results (s\<lparr>lock := b\<rparr>) hits = join_results s hits"
  by (induction hits) (auto split: option.splits)

lemma mid_add_state:
  "mid_add =
     \<lparr>metadata_db = \<lparr>documents = [doc_a], current_timestamp = 0\<rparr>, embedding_dim = 4,
      index = Some index_a, id_to_doc_id = [], next_faiss_id = 0, lock = True,
      disk = no_files, printed = [CreatedNew 4]\<rparr>"
  unfolding mid_add_def fresh_def fresh_state
  by (simp add: add_vector_until_indexed_def add_document_def index_add_def IndexHNSWFlat_def
        empty_db_def max_rowid_def Let_def doc_a_def index_a_def)

text \<open>
  C4 (what the code does). While the lock is held, \<^verbatim>\<open>add_vector\<close> and \<^verbatim>\<open>save\<close>
  wait; \<^verbatim>\<open>search\<close> has no \<^verbatim>\<open>with self.lock\<close> and returns what it returns with the
  lock free. So a search can run between the two halves of an insertion: in the state
  after \<^verbatim>\<open>self.index.add(...)\<close> of the first insertion the engine returns slot 0,
  the mapping has no entry for it, and the search returns no result.
\<close>

theorem search_takes_no_lock:
  "search eng (s\<lparr>lock := True\<rparr>) qv k = (fst (search eng s qv k), s\<lparr>lock := True\<rparr>) \<and>
   add_vector (s\<lparr>lock := True\<rparr>) v fp ft ct md sn = (Inl Blocks, s\<lparr>lock := True\<rparr>) \<and>
   save (s\<lparr>lock := True\<rparr>) = (Inl Blocks, s\<lparr>lock := True\<rparr>) \<and>
   lock mid_add \<and> index mid_add = Some index_a \<and>
   flat_search index_a [1, 0, 0, 0] 1 = [(0, 0)] \<and>
   dict_get (id_to_doc_id mid_add) (KInt 0) = None \<and>
   search flat_search mid_add (Arr1 [1, 0, 0, 0]) 1 = (Inr [], mid_add)"
proof -
  have "search eng (s\<lparr>lock := True\<rparr>) qv k = (fst (search eng s qv k), s\<lparr>lock := True\<rparr>)"
    by (simp add: search_def join_results_lock split: option.splits sum.splits list.splits)
  moreover have "add_vector (s\<lparr>lock := True\<rparr>) v fp ft ct md sn = (Inl Blocks, s\<lparr>lock := True\<rparr>)"
    by (simp add: add_vector_def with_lock_def)
  moreover have "save (s\<lparr>lock := True\<rparr>) = (Inl Blocks, s\<lparr>lock := True\<rparr>)"
    by (simp add: save_def with_lock_def)
  moreover have "search flat_search mid_add (Arr1 [1, 0, 0, 0]) 1 = (Inr [], mid_add)"
    unfolding mid_add_state
    by (simp add: search_def index_search_def ntotal_index_a flat_search_a dict_get_def)
       (simp add: index_a_def)
  ultimately show ?thesis
    by (simp add: flat_search_a) (simp add: mid_add_state dict_get_def)
qed


end
